theory Spec2Isabelle
  imports Main "HOL-Library.Word"
begin

section \<open>Common types\<close>

text \<open>
  \<open>frame_id_t\<close> and \<open>page_id_t\<close> are 32-bit signed integers, \<open>size_t\<close> is a 64-bit
  unsigned integer. Words wrap on \<open>+\<close> and \<open>-\<close>; \<open>sint\<close> and \<open><s\<close> read a word as
  two's complement, \<open>unat\<close> reads it unsigned.
\<close>

type_synonym frame_id_t = "32 word"
type_synonym page_id_t = "32 word"
type_synonym size_t = "64 word"

text \<open>A pointer is an address or \<open>nullptr\<close> (\<open>None\<close>).\<close>

type_synonym ptr = "nat option"

text \<open>
  What a call can end in instead of returning: the \<open>throw\<close> of \<open>ClockReplacer::Unpin\<close>,
  a failed \<open>assert\<close>, and the undefined behaviours the code can run into (dereferencing
  \<open>nullptr\<close>, dereferencing a pointer to a node that was passed to \<open>free\<close>, dereferencing
  the \<open>end()\<close> iterator of the page table, indexing \<open>pages_\<close> outside the array).
\<close>

datatype error =
  NotImplemented | AssertionFailed | NullDeref | UseAfterFree | EndIteratorDeref | OutOfBounds

section \<open>clock\_replacer.h, clock\_replacer.cpp\<close>

record ListNode =
  pin :: bool
  refer :: bool
  frame_id :: frame_id_t
  nxt :: ptr

text \<open>
  The replacer object together with the heap its nodes live in. The heap is a store
  indexed by address: \<open>Some nd\<close> at a live node, \<open>None\<close> at a node that was passed to
  \<open>free\<close>. \<open>malloc\<close> hands out the next unused address, the length of the store, so a
  freed address is never handed out again.
\<close>

type_synonym store = "ListNode option list"

definition lookup :: "store \<Rightarrow> nat \<Rightarrow> ListNode option" where
  "lookup h a = (if a < length h then h ! a else None)"

record ClockReplacer =
  capacity :: size_t
  clock_size :: size_t
  pin_size :: size_t
  head :: ptr
  tail :: ptr
  current :: ptr
  heap :: store

definition INT_MAX :: frame_id_t where
  "INT_MAX = 2147483647"

text \<open>
  The constructor sets the three counters only. The pointers \<open>head_\<close>, \<open>tail_\<close> and
  \<open>current_\<close> are left uninitialised by the source; they are taken as \<open>nullptr\<close> here.
\<close>

definition ClockReplacer_init :: "size_t \<Rightarrow> ClockReplacer" where
  "ClockReplacer_init num_pages =
     \<lparr>capacity = num_pages, clock_size = 0, pin_size = 0,
      head = None, tail = None, current = None, heap = []\<rparr>"

text \<open>Reading \<open>p->...\<close> and writing \<open>p->next_ = q\<close>.\<close>

definition deref :: "store \<Rightarrow> ptr \<Rightarrow> error + ListNode" where
  "deref h p =
     (case p of
        None \<Rightarrow> Inl NullDeref
      | Some a \<Rightarrow> (case lookup h a of None \<Rightarrow> Inl UseAfterFree | Some nd \<Rightarrow> Inr nd))"

definition set_next :: "store \<Rightarrow> ptr \<Rightarrow> ptr \<Rightarrow> error + store" where
  "set_next h p q =
     (case p of
        None \<Rightarrow> Inl NullDeref
      | Some a \<Rightarrow>
          (case lookup h a of
             None \<Rightarrow> Inl UseAfterFree
           | Some nd \<Rightarrow> Inr (h[a := Some (nd\<lparr>nxt := q\<rparr>)])))"

text \<open>
  \<open>Create_node\<close>: allocate a node with \<open>refer_ = true\<close> and increase \<open>clock_size_\<close>.
  Returns the new node's address.
\<close>

definition Create_node :: "ClockReplacer \<Rightarrow> frame_id_t \<Rightarrow> bool \<Rightarrow> ptr \<Rightarrow> nat \<times> ClockReplacer" where
  "Create_node s fid p next =
     (let a = length (heap s)
      in (a, s\<lparr>heap := heap s @ [Some \<lparr>pin = p, refer = True, frame_id = fid, nxt = next\<rparr>],
               clock_size := clock_size s + 1\<rparr>))"

text \<open>
  The loop of \<open>Victim\<close>. The first argument is \<open>clock_size_ - cnt\<close>, the number of
  iterations left (\<open>clock_size_\<close> does not change inside the loop). The result is the
  heap (refer bits cleared on the way) and the values of \<open>current_\<close>, \<open>target\<close>, \<open>pre\<close>,
  \<open>min_pre\<close> and \<open>min_frame\<close> when the loop is left.
\<close>

fun victim_loop ::
  "nat \<Rightarrow> store \<Rightarrow> ptr \<Rightarrow> ptr \<Rightarrow> ptr \<Rightarrow> ptr \<Rightarrow> frame_id_t \<Rightarrow>
   error + (store \<times> ptr \<times> ptr \<times> ptr \<times> ptr \<times> ptr)" where
  "victim_loop 0 h cur pre min_pre min_frame min_frame_id =
     Inr (h, cur, None, pre, min_pre, min_frame)"
| "victim_loop (Suc n) h cur pre min_pre min_frame min_frame_id =
     (case cur of
        None \<Rightarrow> Inr (h, cur, None, pre, min_pre, min_frame)
      | Some a \<Rightarrow>
          (case lookup h a of
             None \<Rightarrow> Inl UseAfterFree
           | Some nd \<Rightarrow>
               if pin nd then victim_loop n h (nxt nd) cur min_pre min_frame min_frame_id
               else if \<not> refer nd then Inr (h, cur, cur, pre, min_pre, min_frame)
               else
                 let h' = h[a := Some (nd\<lparr>refer := False\<rparr>)]
                 in if frame_id nd <s min_frame_id
                    then victim_loop n h' (nxt nd) cur pre cur (frame_id nd)
                    else victim_loop n h' (nxt nd) cur min_pre min_frame min_frame_id))"

text \<open>
  Unlinking \<open>target\<close> (node \<open>t\<close>) after the loop: the pointer surgery of \<open>Victim\<close>, up to
  and including \<open>free(target)\<close> and \<open>clock_size_--\<close>.
\<close>

definition victim_remove :: "ClockReplacer \<Rightarrow> nat \<Rightarrow> ptr \<Rightarrow> error + (frame_id_t \<times> ClockReplacer)" where
  "victim_remove s t pre =
     (case
        (if clock_size s = 1
         then Inr (s\<lparr>head := None, tail := None, current := None\<rparr>)
         else if Some t = head s
         then
           (case deref (heap s) (Some t) of
              Inl e \<Rightarrow> Inl e
            | Inr tn \<Rightarrow>
                (case set_next (heap s) (tail s) (nxt tn) of
                   Inl e \<Rightarrow> Inl e
                 | Inr h' \<Rightarrow> Inr (s\<lparr>head := nxt tn, heap := h'\<rparr>)))
         else
           (let pre' = (if pre = None then head s else pre)
            in case deref (heap s) (Some t) of
                 Inl e \<Rightarrow> Inl e
               | Inr tn \<Rightarrow>
                   (case set_next (heap s) pre' (nxt tn) of
                      Inl e \<Rightarrow> Inl e
                    | Inr h' \<Rightarrow> Inr (s\<lparr>heap := h'\<rparr>))))
      of
        Inl e \<Rightarrow> Inl e
      | Inr s1 \<Rightarrow>
          (case deref (heap s1) (Some t) of
             Inl e \<Rightarrow> Inl e
           | Inr tn \<Rightarrow>
               let s2 = (if current s1 = Some t then s1\<lparr>current := nxt tn\<rparr> else s1)
               in Inr (frame_id tn,
                       s2\<lparr>heap := (heap s2)[t := None], clock_size := clock_size s2 - 1\<rparr>)))"

text \<open>
  \<open>Victim\<close>. The result \<open>Some f\<close> stands for "returned true and wrote \<open>f\<close> to
  \<open>*frame_id\<close>", \<open>None\<close> for "returned false" (the out-parameter is not written).
\<close>

definition Victim :: "ClockReplacer \<Rightarrow> error + (frame_id_t option \<times> ClockReplacer)" where
  "Victim s =
     (if head s = None then Inr (None, s)
      else
        case victim_loop (unat (clock_size s)) (heap s) (current s) None None None INT_MAX of
          Inl e \<Rightarrow> Inl e
        | Inr (h, cur, target0, pre0, min_pre, min_frame) \<Rightarrow>
            let s1 = s\<lparr>heap := h, current := cur\<rparr>;
                target = (if target0 = None \<and> min_frame \<noteq> None then min_frame else target0);
                pre = (if target0 = None \<and> min_frame \<noteq> None then min_pre else pre0)
            in (case target of
                  None \<Rightarrow> Inr (None, s1)
                | Some t \<Rightarrow>
                    (case victim_remove s1 t pre of
                       Inl e \<Rightarrow> Inl e
                     | Inr (f, s2) \<Rightarrow> Inr (Some f, s2))))"

text \<open>The search loop of \<open>Pin\<close>; the result is \<open>target\<close>.\<close>

fun pin_loop :: "nat \<Rightarrow> store \<Rightarrow> ptr \<Rightarrow> frame_id_t \<Rightarrow> error + ptr" where
  "pin_loop 0 h node fid = Inr None"
| "pin_loop (Suc n) h node fid =
     (case node of
        None \<Rightarrow> Inr None
      | Some a \<Rightarrow>
          (case lookup h a of
             None \<Rightarrow> Inl UseAfterFree
           | Some nd \<Rightarrow>
               if frame_id nd = fid then Inr node
               else pin_loop n h (nxt nd) fid))"

definition Pin :: "ClockReplacer \<Rightarrow> frame_id_t \<Rightarrow> error + ClockReplacer" where
  "Pin s fid =
     (if clock_size s = 0 then Inr s
      else
        case pin_loop (unat (clock_size s)) (heap s) (head s) fid of
          Inl e \<Rightarrow> Inl e
        | Inr None \<Rightarrow> Inr s
        | Inr (Some t) \<Rightarrow>
            (case lookup (heap s) t of
               None \<Rightarrow> Inl UseAfterFree
             | Some tn \<Rightarrow>
                 Inr (s\<lparr>heap := (heap s)[t := Some (tn\<lparr>pin := True, refer := True\<rparr>)],
                        pin_size := pin_size s + 1\<rparr>)))"

text \<open>The search loop of \<open>Unpin\<close>; the result is \<open>target\<close> and \<open>pre\<close>.\<close>

fun unpin_loop :: "nat \<Rightarrow> store \<Rightarrow> ptr \<Rightarrow> ptr \<Rightarrow> frame_id_t \<Rightarrow> error + (ptr \<times> ptr)" where
  "unpin_loop 0 h node pre fid = Inr (None, pre)"
| "unpin_loop (Suc n) h node pre fid =
     (case node of
        None \<Rightarrow> Inr (None, pre)
      | Some a \<Rightarrow>
          (case lookup h a of
             None \<Rightarrow> Inl UseAfterFree
           | Some nd \<Rightarrow>
               if frame_id nd = fid then Inr (node, pre)
               else unpin_loop n h (nxt nd) node fid))"

definition Unpin :: "ClockReplacer \<Rightarrow> frame_id_t \<Rightarrow> error + ClockReplacer" where
  "Unpin s fid =
     (if clock_size s = 0
      then
        (let (a, s1) = Create_node s fid False None
         in case set_next (heap s1) (Some a) (Some a) of
              Inl e \<Rightarrow> Inl e
            | Inr h' \<Rightarrow> Inr (s1\<lparr>head := Some a, current := Some a, heap := h'\<rparr>))
      else
        case unpin_loop (unat (clock_size s)) (heap s) (head s) None fid of
          Inl e \<Rightarrow> Inl e
        | Inr (Some t, pre) \<Rightarrow>
            (case lookup (heap s) t of
               None \<Rightarrow> Inl UseAfterFree
             | Some tn \<Rightarrow>
                 if pin tn
                 then Inr (s\<lparr>heap := (heap s)[t := Some (tn\<lparr>pin := False\<rparr>)],
                             pin_size := pin_size s - 1\<rparr>)
                 else Inr s)
        | Inr (None, pre) \<Rightarrow>
            if clock_size s < capacity s
            then
              (let (a, s1) = Create_node s fid False (head s)
               in case set_next (heap s1) pre (Some a) of
                    Inl e \<Rightarrow> Inl e
                  | Inr h' \<Rightarrow> Inr (s1\<lparr>heap := h', tail := Some a\<rparr>))
            else Inl NotImplemented)"

definition Size :: "ClockReplacer \<Rightarrow> size_t" where
  "Size s = clock_size s - pin_size s"

subsection \<open>Sequences of replacer calls\<close>

datatype rop = OpPin frame_id_t | OpUnpin frame_id_t | OpVictim

text \<open>
  Running a list of calls from a state; the results of the \<open>Victim\<close> calls are collected
  in order. The first call that ends in an error ends the run.
\<close>

fun run_replacer ::
  "ClockReplacer \<Rightarrow> rop list \<Rightarrow> error + (frame_id_t option list \<times> ClockReplacer)" where
  "run_replacer s [] = Inr ([], s)"
| "run_replacer s (OpPin f # ops) =
     (case Pin s f of Inl e \<Rightarrow> Inl e | Inr s' \<Rightarrow> run_replacer s' ops)"
| "run_replacer s (OpUnpin f # ops) =
     (case Unpin s f of Inl e \<Rightarrow> Inl e | Inr s' \<Rightarrow> run_replacer s' ops)"
| "run_replacer s (OpVictim # ops) =
     (case Victim s of
        Inl e \<Rightarrow> Inl e
      | Inr (r, s') \<Rightarrow>
          (case run_replacer s' ops of
             Inl e \<Rightarrow> Inl e
           | Inr (rs, s'') \<Rightarrow> Inr (r # rs, s'')))"

text \<open>
  The ring as seen from \<open>head_\<close>: the descriptors met by following \<open>next_\<close> for
  \<open>n\<close> steps, as (frame id, pin, refer). Used to observe states.
\<close>

fun walk :: "nat \<Rightarrow> store \<Rightarrow> ptr \<Rightarrow> (frame_id_t \<times> bool \<times> bool) list" where
  "walk 0 h p = []"
| "walk (Suc n) h p =
     (case p of
        None \<Rightarrow> []
      | Some a \<Rightarrow>
          (case lookup h a of
             None \<Rightarrow> []
           | Some nd \<Rightarrow> (frame_id nd, pin nd, refer nd) # walk n h (nxt nd)))"

text \<open>
  Following \<open>next_\<close> for \<open>n\<close> steps over live, pinned nodes: the pointer reached, or
  \<open>None\<close> when a step meets \<open>nullptr\<close>, a freed node or an unpinned node.
\<close>

fun pinned_walk :: "nat \<Rightarrow> store \<Rightarrow> ptr \<Rightarrow> ptr option" where
  "pinned_walk 0 h p = Some p"
| "pinned_walk (Suc n) h p =
     (case p of
        None \<Rightarrow> None
      | Some a \<Rightarrow>
          (case lookup h a of
             None \<Rightarrow> None
           | Some nd \<Rightarrow> if pin nd then pinned_walk n h (nxt nd) else None))"

section \<open>buffer\_pool\_manager\_instance.cpp\<close>

subsection \<open>Pages and the disk\<close>

text \<open>
  The data buffer of a frame, \<open>char data_[PAGE_SIZE]\<close>, as the byte at each offset.
\<close>

type_synonym bytes = "nat \<Rightarrow> 8 word"

definition INVALID_PAGE_ID :: page_id_t where
  "INVALID_PAGE_ID = - 1"

definition zero_page :: bytes where
  "zero_page = (\<lambda>_. 0)"

text \<open>
  Modelled from the spec: the \<open>Page\<close> class (its header is not among the sources). A frame
  is a data buffer with the metadata \<open>page_id\<close>, \<open>pin_count\<close> and \<open>is_dirty\<close>; the latch
  has no sequential effect and is left out. \<open>pin_count_\<close> is only ever assigned and compared
  with zero by the manager, so it is an \<open>int\<close>.
\<close>

record Page =
  data :: bytes
  page_id :: page_id_t
  pin_count :: int
  is_dirty :: bool

definition empty_page :: Page where
  "empty_page = \<lparr>data = zero_page, page_id = INVALID_PAGE_ID, pin_count = 0, is_dirty = False\<rparr>"

text \<open>
  Modelled from the spec: the disk collaborator. \<open>contents\<close> is what \<open>ReadPage\<close> delivers for
  each page id; \<open>writes\<close> records the \<open>WritePage\<close> calls, oldest first.
\<close>

record DiskManager =
  contents :: "page_id_t \<Rightarrow> bytes"
  writes :: "(page_id_t \<times> bytes) list"

definition ReadPage :: "DiskManager \<Rightarrow> page_id_t \<Rightarrow> bytes" where
  "ReadPage d pid = contents d pid"

definition WritePage :: "DiskManager \<Rightarrow> page_id_t \<Rightarrow> bytes \<Rightarrow> DiskManager" where
  "WritePage d pid buf = d\<lparr>contents := (contents d)(pid := buf), writes := writes d @ [(pid, buf)]\<rparr>"

subsection \<open>The manager instance\<close>

record BufferPoolManagerInstance =
  pool_size :: nat
  num_instances :: "32 word"
  instance_index :: "32 word"
  next_page_id :: page_id_t
  pages :: "Page list"
  page_table :: "page_id_t \<rightharpoonup> frame_id_t"
  free_list :: "frame_id_t list"
  replacer :: ClockReplacer
  disk_manager :: DiskManager

text \<open>
  The five-argument constructor. \<open>BUSTUB_ASSERT\<close> is an \<open>assert\<close>. Every frame starts in the
  free list, in index order.
\<close>

definition BufferPoolManagerInstance_init ::
  "nat \<Rightarrow> 32 word \<Rightarrow> 32 word \<Rightarrow> DiskManager \<Rightarrow> error + BufferPoolManagerInstance" where
  "BufferPoolManagerInstance_init psize n_instances index d =
     (if \<not> (0 < n_instances) then Inl AssertionFailed
      else if \<not> (index < n_instances) then Inl AssertionFailed
      else Inr \<lparr>pool_size = psize, num_instances = n_instances, instance_index = index,
                next_page_id = index,
                pages = replicate psize empty_page,
                page_table = Map.empty,
                free_list = map word_of_nat [0..<psize],
                replacer = ClockReplacer_init (word_of_nat psize),
                disk_manager = d\<rparr>)"

text \<open>\<open>pages_ + frame_id\<close>: the index of the frame in the array, if it is one.\<close>

definition frame_index :: "BufferPoolManagerInstance \<Rightarrow> frame_id_t \<Rightarrow> nat option" where
  "frame_index s f =
     (if 0 \<le> sint f \<and> nat (sint f) < length (pages s) then Some (nat (sint f)) else None)"

text \<open>
  \<open>ValidatePageId\<close> compares \<open>page_id % num_instances_\<close> with \<open>instance_index_\<close>; the
  operands are converted to unsigned 32-bit integers, which is what \<open>mod\<close> and \<open>=\<close> on words
  compute.
\<close>

definition ValidatePageId :: "BufferPoolManagerInstance \<Rightarrow> page_id_t \<Rightarrow> bool" where
  "ValidatePageId s pid \<longleftrightarrow> pid mod num_instances s = instance_index s"

definition AllocatePage ::
  "BufferPoolManagerInstance \<Rightarrow> error + (page_id_t \<times> BufferPoolManagerInstance)" where
  "AllocatePage s =
     (let next = next_page_id s;
          s1 = s\<lparr>next_page_id := next_page_id s + num_instances s\<rparr>
      in if ValidatePageId s1 next then Inr (next, s1) else Inl AssertionFailed)"

definition FlushPgImp ::
  "BufferPoolManagerInstance \<Rightarrow> page_id_t \<Rightarrow> error + (bool \<times> BufferPoolManagerInstance)" where
  "FlushPgImp s pid =
     (if pid = INVALID_PAGE_ID then Inr (False, s)
      else
        case page_table s pid of
          None \<Rightarrow> Inr (False, s)
        | Some f \<Rightarrow>
            (case frame_index s f of
               None \<Rightarrow> Inl OutOfBounds
             | Some i \<Rightarrow>
                 let page = pages s ! i
                 in if is_dirty page
                    then Inr (False,
                              s\<lparr>disk_manager := WritePage (disk_manager s) pid (data page),
                                pages := (pages s)[i := page\<lparr>is_dirty := False\<rparr>]\<rparr>)
                    else Inr (False, s)))"

text \<open>
  \<open>NewPgImp\<close>. The result is the returned \<open>Page *\<close> (the frame's id, \<open>None\<close> for
  \<open>nullptr\<close>), the value written to \<open>*page_id\<close>, and the new state.
\<close>

definition NewPgImp ::
  "BufferPoolManagerInstance \<Rightarrow>
   error + (frame_id_t option \<times> page_id_t \<times> BufferPoolManagerInstance)" where
  "NewPgImp s0 =
     (case AllocatePage s0 of
        Inl e \<Rightarrow> Inl e
      | Inr (pid, s) \<Rightarrow>
          (case
             (case free_list s of
                f # rest \<Rightarrow> Inr (Some f, s\<lparr>free_list := rest\<rparr>)
              | [] \<Rightarrow>
                  (case Victim (replacer s) of
                     Inl e \<Rightarrow> Inl e
                   | Inr (None, r) \<Rightarrow> Inr (None, s\<lparr>replacer := r\<rparr>)
                   | Inr (Some f, r) \<Rightarrow>
                       (case frame_index s f of
                          None \<Rightarrow> Inl OutOfBounds
                        | Some i \<Rightarrow>
                            let old_page = pages s ! i;
                                old_page_id = page_id old_page;
                                s1 = s\<lparr>replacer := r\<rparr>;
                                s2 = (if is_dirty old_page
                                      then s1\<lparr>pages := (pages s1)[i := old_page\<lparr>is_dirty := False\<rparr>],
                                              disk_manager :=
                                                WritePage (disk_manager s1) old_page_id (data old_page)\<rparr>
                                      else s1)
                            in Inr (Some f, s2\<lparr>page_table := (page_table s2)(old_page_id := None)\<rparr>))))
           of
             Inl e \<Rightarrow> Inl e
           | Inr (None, s3) \<Rightarrow> Inr (None, pid, s3)
           | Inr (Some f, s3) \<Rightarrow>
               (case frame_index s3 f of
                  None \<Rightarrow> Inl OutOfBounds
                | Some i \<Rightarrow>
                    let page = (pages s3 ! i)\<lparr>data := ReadPage (disk_manager s3) pid,
                                             pin_count := 1, is_dirty := False, page_id := pid\<rparr>;
                        s4 = s3\<lparr>pages := (pages s3)[i := page]\<rparr>
                    in (case Unpin (replacer s4) f of
                          Inl e \<Rightarrow> Inl e
                        | Inr r1 \<Rightarrow>
                            (case Pin r1 f of
                               Inl e \<Rightarrow> Inl e
                             | Inr r2 \<Rightarrow>
                                 Inr (Some f, pid,
                                      s4\<lparr>replacer := r2,
                                         page_table :=
                                           (if page_table s4 pid = None
                                            then (page_table s4)(pid \<mapsto> f)
                                            else page_table s4)\<rparr>))))))"

definition FetchPgImp ::
  "BufferPoolManagerInstance \<Rightarrow> page_id_t \<Rightarrow>
   error + (frame_id_t option \<times> BufferPoolManagerInstance)" where
  "FetchPgImp s pid =
     (case page_table s pid of
        Some f \<Rightarrow>
          (case Pin (replacer s) f of
             Inl e \<Rightarrow> Inl e
           | Inr r \<Rightarrow> Inr (Some f, s\<lparr>replacer := r\<rparr>))
      | None \<Rightarrow>
          (case
             (case free_list s of
                f # rest \<Rightarrow> Inr (Some f, s\<lparr>free_list := rest\<rparr>)
              | [] \<Rightarrow>
                  (case Victim (replacer s) of
                     Inl e \<Rightarrow> Inl e
                   | Inr (r, rs) \<Rightarrow> Inr (r, s\<lparr>replacer := rs\<rparr>)))
           of
             Inl e \<Rightarrow> Inl e
           | Inr (None, s1) \<Rightarrow> Inr (None, s1)
           | Inr (Some f, s1) \<Rightarrow>
               (case frame_index s1 f of
                  None \<Rightarrow> Inl OutOfBounds
                | Some i \<Rightarrow>
                    let page0 = pages s1 ! i;
                        s2 = (if is_dirty page0
                              then s1\<lparr>pages := (pages s1)[i := page0\<lparr>is_dirty := False\<rparr>],
                                      disk_manager :=
                                        WritePage (disk_manager s1) (page_id page0) (data page0)\<rparr>
                              else s1);
                        s3 = s2\<lparr>page_table := (page_table s2)(page_id page0 := None)\<rparr>;
                        page = (pages s3 ! i)\<lparr>data := ReadPage (disk_manager s3) pid,
                                             page_id := pid, is_dirty := False, pin_count := 1\<rparr>;
                        s4 = s3\<lparr>pages := (pages s3)[i := page]\<rparr>
                    in (case Unpin (replacer s4) f of
                          Inl e \<Rightarrow> Inl e
                        | Inr r1 \<Rightarrow>
                            (case Pin r1 f of
                               Inl e \<Rightarrow> Inl e
                             | Inr r2 \<Rightarrow>
                                 Inr (Some f,
                                      s4\<lparr>replacer := r2,
                                         page_table :=
                                           (if page_table s4 pid = None
                                            then (page_table s4)(pid \<mapsto> f)
                                            else page_table s4)\<rparr>))))))"

text \<open>
  \<open>DeletePgImp\<close>. The second test of the source is \<open>it != page_table_.end()\<close>, so a resident
  page returns true at once. For a page that is not resident, \<open>it\<close> is \<open>end()\<close> and the next
  statement, \<open>frame_id = it->second\<close>, dereferences it: the behaviour is undefined and nothing
  after that statement is reached in a defined way.
\<close>

definition DeletePgImp ::
  "BufferPoolManagerInstance \<Rightarrow> page_id_t \<Rightarrow> error + (bool \<times> BufferPoolManagerInstance)" where
  "DeletePgImp s pid =
     (if pid = INVALID_PAGE_ID then Inr (True, s)
      else
        case page_table s pid of
          Some f \<Rightarrow> Inr (True, s)
        | None \<Rightarrow> Inl EndIteratorDeref)"

definition UnpinPgImp ::
  "BufferPoolManagerInstance \<Rightarrow> page_id_t \<Rightarrow> bool \<Rightarrow>
   error + (bool \<times> BufferPoolManagerInstance)" where
  "UnpinPgImp s pid dirty =
     (case page_table s pid of
        None \<Rightarrow> Inr (True, s)
      | Some f \<Rightarrow>
          (case frame_index s f of
             None \<Rightarrow> Inl OutOfBounds
           | Some i \<Rightarrow>
               let page = (pages s ! i)\<lparr>is_dirty := dirty\<rparr>;
                   s1 = s\<lparr>pages := (pages s)[i := page]\<rparr>
               in if 0 < pin_count page
                  then
                    (case Unpin (replacer s1) f of
                       Inl e \<Rightarrow> Inl e
                     | Inr r \<Rightarrow>
                         Inr (True, s1\<lparr>replacer := r,
                                       pages := (pages s1)[i := page\<lparr>pin_count := 0\<rparr>]\<rparr>))
                  else Inr (False, s1)))"

subsection \<open>Sequences of manager calls\<close>

datatype bop =
  OpNewPage | OpFetchPage page_id_t | OpUnpinPage page_id_t bool
  | OpDeletePage page_id_t | OpFlushPage page_id_t

datatype bres = RNew "frame_id_t option" page_id_t | RFetch "frame_id_t option" | RBool bool

definition bpm_step ::
  "BufferPoolManagerInstance \<Rightarrow> bop \<Rightarrow> error + (bres \<times> BufferPoolManagerInstance)" where
  "bpm_step s c =
     (case c of
        OpNewPage \<Rightarrow>
          (case NewPgImp s of Inl e \<Rightarrow> Inl e | Inr (r, pid, s') \<Rightarrow> Inr (RNew r pid, s'))
      | OpFetchPage pid \<Rightarrow>
          (case FetchPgImp s pid of Inl e \<Rightarrow> Inl e | Inr (r, s') \<Rightarrow> Inr (RFetch r, s'))
      | OpUnpinPage pid d \<Rightarrow>
          (case UnpinPgImp s pid d of Inl e \<Rightarrow> Inl e | Inr (b, s') \<Rightarrow> Inr (RBool b, s'))
      | OpDeletePage pid \<Rightarrow>
          (case DeletePgImp s pid of Inl e \<Rightarrow> Inl e | Inr (b, s') \<Rightarrow> Inr (RBool b, s'))
      | OpFlushPage pid \<Rightarrow>
          (case FlushPgImp s pid of Inl e \<Rightarrow> Inl e | Inr (b, s') \<Rightarrow> Inr (RBool b, s')))"

fun run_bpm ::
  "BufferPoolManagerInstance \<Rightarrow> bop list \<Rightarrow> error + (bres list \<times> BufferPoolManagerInstance)" where
  "run_bpm s [] = Inr ([], s)"
| "run_bpm s (c # cs) =
     (case bpm_step s c of
        Inl e \<Rightarrow> Inl e
      | Inr (r, s') \<Rightarrow>
          (case run_bpm s' cs of
             Inl e \<Rightarrow> Inl e
           | Inr (rs, s'') \<Rightarrow> Inr (r # rs, s'')))"

text \<open>\<open>n\<close> successive calls of \<open>AllocatePage\<close>, with the ids returned, in order.\<close>

fun allocate_pages ::
  "nat \<Rightarrow> BufferPoolManagerInstance \<Rightarrow> error + (page_id_t list \<times> BufferPoolManagerInstance)" where
  "allocate_pages 0 s = Inr ([], s)"
| "allocate_pages (Suc n) s =
     (case AllocatePage s of
        Inl e \<Rightarrow> Inl e
      | Inr (pid, s') \<Rightarrow>
          (case allocate_pages n s' of
             Inl e \<Rightarrow> Inl e
           | Inr (pids, s'') \<Rightarrow> Inr (pid # pids, s'')))"

text \<open>The page ids that the \<open>NewPgImp\<close> calls of a run wrote to \<open>*page_id\<close>, in order.\<close>

fun new_ids :: "bres list \<Rightarrow> page_id_t list" where
  "new_ids [] = []"
| "new_ids (RNew r pid # rs) = pid # new_ids rs"
| "new_ids (RFetch r # rs) = new_ids rs"
| "new_ids (RBool b # rs) = new_ids rs"

subsection \<open>Two disks used in the examples\<close>

definition empty_disk :: DiskManager where
  "empty_disk = \<lparr>contents = (\<lambda>_. zero_page), writes = []\<rparr>"

text \<open>A disk every byte of which is \<open>0xAB\<close>.\<close>

definition ab_disk :: DiskManager where
  "ab_disk = \<lparr>contents = (\<lambda>_ _. 171), writes = []\<rparr>"

section \<open>Reading results\<close>

lemma sum_caseE:
  assumes "case x of Inl e \<Rightarrow> False | Inr v \<Rightarrow> P v"
  obtains v where "x = Inr v" and "P v"
  using assms by (cases x) simp_all

lemma sum_pair_caseE:
  assumes "case x of Inl e \<Rightarrow> False | Inr (a, b) \<Rightarrow> P a b"
  obtains a b where "x = Inr (a, b)" and "P a b"
  using assms by (cases x) auto

lemma frame_index_bound:
  assumes "frame_index s f = Some i"
  shows "i < length (pages s)"
  using assms by (auto simp: frame_index_def split: if_splits)

section \<open>The clock replacer\<close>

text \<open>
  A scan that meets pinned nodes only and ends where it began leaves the replacer as it
  was: \<open>Victim\<close> returns false and changes nothing.
\<close>

lemma victim_loop_pinned:
  assumes "pinned_walk n h cur = Some p"
  shows "\<exists>pre'. victim_loop n h cur pre mp mf mid = Inr (h, p, None, pre', mp, mf)"
  using assms
proof (induction n arbitrary: cur pre)
  case 0
  then show ?case by simp
next
  case (Suc n)
  from Suc.prems obtain a nd where
    c: "cur = Some a" and l: "lookup h a = Some nd" and pn: "pin nd"
    and w: "pinned_walk n h (nxt nd) = Some p"
    by (auto split: option.splits if_splits)
  from Suc.IH [OF w, of cur] c l pn show ?case by simp
qed

lemma Victim_all_pinned:
  assumes "pinned_walk (unat (clock_size r)) (heap r) (current r) = Some (current r)"
  shows "Victim r = Inr (None, r)"
proof (cases "head r = None")
  case True
  then show ?thesis by (simp add: Victim_def)
next
  case False
  from victim_loop_pinned [OF assms, of None None None INT_MAX]
  obtain pre' where
    "victim_loop (unat (clock_size r)) (heap r) (current r) None None None INT_MAX =
       Inr (heap r, current r, None, pre', None, None)"
    by blast
  with False show ?thesis by (simp add: Victim_def)
qed


text \<open>
  Claim C1 (Victim chooses by the clock rule, removes the chosen descriptor from the ring,
  decrements \<open>clock_size\<close> and returns true whenever the ring has an unpinned entry).
  The unlinking does not do this in two states that calls of the replacer reach.

  First run, capacity 3: after \<open>Unpin 0, 1, 2; Pin 0, 1; Victim; Unpin 0\<close> the first
  \<open>Victim\<close> has removed and freed the node of frame 2, which \<open>tail_\<close> still points to
  (address 2, no longer in the store). The ring is frame 0 (unpinned) and frame 1 (pinned).
  The next \<open>Victim\<close> chooses frame 0, which is \<open>head_\<close>, and executes
  \<open>tail_->next_ = head_\<close> through the dangling \<open>tail_\<close>.

  Second run, capacity 4: after \<open>Unpin 0, 1, 2, 3; Pin 0, 1; Victim; Unpin 2; Victim\<close> the
  ring is frames 0 and 1 (pinned) and 2 (unpinned), and the hand is at frame 2. \<open>Victim\<close>
  chooses frame 2 with \<open>pre == nullptr\<close>, takes \<open>head_\<close> as predecessor, and so unlinks
  the pinned frame 1 as well: \<open>clock_size\<close> is 2 and the ring holds frame 0 alone.
\<close>

theorem Victim_unlink_defects:
  "(case run_replacer (ClockReplacer_init 3)
          [OpUnpin 0, OpUnpin 1, OpUnpin 2, OpPin 0, OpPin 1, OpVictim, OpUnpin 0] of
      Inl e \<Rightarrow> False
    | Inr (rs, s) \<Rightarrow>
        rs = [Some 2] \<and> clock_size s = 2 \<and> head s = Some 0 \<and> tail s = Some 2
        \<and> current s = Some 0 \<and> lookup (heap s) 2 = None
        \<and> walk 2 (heap s) (head s) = [(0, False, True), (1, True, True)]
        \<and> Victim s = Inl UseAfterFree)
   \<and> (case run_replacer (ClockReplacer_init 4)
          [OpUnpin 0, OpUnpin 1, OpUnpin 2, OpUnpin 3, OpPin 0, OpPin 1, OpVictim,
           OpUnpin 2, OpVictim] of
      Inl e \<Rightarrow> False
    | Inr (rs, s) \<Rightarrow>
        clock_size s = 3 \<and> current s = Some 4
        \<and> walk 3 (heap s) (head s) = [(0, True, True), (1, True, True), (2, False, True)]
        \<and> (case Victim s of
             Inl e \<Rightarrow> False
           | Inr (r, s') \<Rightarrow>
               r = Some 2 \<and> clock_size s' = 2
               \<and> walk 2 (heap s') (head s') = [(0, True, True), (0, True, True)]))"
  by code_simp

text \<open>
  Claim C8 (\<open>Size\<close> is \<open>clock_size - pin_size\<close> and the number of unpinned ring entries;
  \<open>pin_size\<close> counts the pinned entries, so \<open>Pin\<close> of a pinned frame does not change it).
  \<open>Pin\<close> increments \<open>pin_size_\<close> whenever it finds the frame: after \<open>Unpin 0; Pin 0; Pin 0\<close>
  the ring has one entry, pinned, \<open>pin_size\<close> is 2 and \<open>Size\<close> is \<open>1 - 2\<close> in \<open>size_t\<close>.
\<close>

theorem Pin_counts_pinned_frame_again:
  "case run_replacer (ClockReplacer_init 1) [OpUnpin 0, OpPin 0, OpPin 0] of
     Inl e \<Rightarrow> False
   | Inr (rs, s) \<Rightarrow>
       clock_size s = 1 \<and> pin_size s = 2
       \<and> walk (unat (clock_size s)) (heap s) (head s) = [(0, True, True)]
       \<and> Size s = 18446744073709551615"
  by code_simp

text \<open>
  Claim C9 (with every frame id in \<open>[0, num_pages)\<close> the overflow branch of \<open>Unpin\<close> is
  unreachable). With capacity 4 and frame ids 0 to 3 the last \<open>Unpin\<close> of this run throws:
  the third \<open>Victim\<close> and the \<open>Unpin\<close> calls after it drop descriptors from the ring without
  decreasing \<open>clock_size\<close>, which reaches the capacity while frame 1 is not in the ring.
\<close>

theorem Unpin_overflow_reached:
  "run_replacer (ClockReplacer_init 4)
     [OpUnpin 0, OpUnpin 1, OpUnpin 2, OpUnpin 3, OpPin 0, OpPin 1, OpVictim, OpUnpin 2,
      OpVictim, OpVictim, OpUnpin 1, OpUnpin 2, OpUnpin 1] = Inl NotImplemented"
  by code_simp

section \<open>The buffer pool manager instance\<close>

text \<open>
  What \<open>NewPgImp\<close> does with \<open>next_page_id_\<close>, and what it leaves alone when it returns
  \<open>nullptr\<close>: the id is consumed, and apart from \<open>next_page_id_\<close> only the replacer can
  differ, by what the fruitless \<open>Victim\<close> call did to it.
\<close>

lemma NewPgImp_next_page_id_aux:
  "case NewPgImp s of
     Inl e \<Rightarrow> True
   | Inr (r, pid, s') \<Rightarrow>
       pid = next_page_id s \<and> next_page_id s' = next_page_id s + num_instances s
       \<and> num_instances s' = num_instances s"
  by (auto simp: NewPgImp_def AllocatePage_def Let_def
           split: sum.split option.split list.split prod.split)

lemma NewPgImp_null_aux:
  "case NewPgImp s of
     Inl e \<Rightarrow> True
   | Inr (r, pid, s') \<Rightarrow>
       r = None \<longrightarrow>
         free_list s = [] \<and> Victim (replacer s) = Inr (None, replacer s')
         \<and> s' = s\<lparr>next_page_id := next_page_id s + num_instances s, replacer := replacer s'\<rparr>"
  by (auto simp: NewPgImp_def AllocatePage_def Let_def
           split: sum.split option.split list.split prod.split)

lemma NewPgImp_null_frame:
  assumes "NewPgImp s = Inr (None, pid, s')"
  shows "free_list s = [] \<and> pid = next_page_id s
         \<and> next_page_id s' = next_page_id s + num_instances s
         \<and> page_table s' = page_table s \<and> free_list s' = free_list s
         \<and> pages s' = pages s \<and> disk_manager s' = disk_manager s
         \<and> Victim (replacer s) = Inr (None, replacer s')"
proof -
  from NewPgImp_null_aux [of s] assms
  have a: "free_list s = []" and v: "Victim (replacer s) = Inr (None, replacer s')"
    and e: "s' = s\<lparr>next_page_id := next_page_id s + num_instances s, replacer := replacer s'\<rparr>"
    by simp_all
  have f: "next_page_id s' = next_page_id s + num_instances s"
     "page_table s' = page_table s" "free_list s' = free_list s"
     "pages s' = pages s" "disk_manager s' = disk_manager s"
    by (subst e, simp)+
  from NewPgImp_next_page_id_aux [of s] assms have "pid = next_page_id s" by simp
  with a v f show ?thesis by simp
qed

text \<open>
  On a ring whose \<open>clock_size\<close> nodes from the hand are pinned and lead back to the hand,
  a \<open>NewPgImp\<close> that returns \<open>nullptr\<close> changes \<open>next_page_id_\<close> and nothing else.
\<close>

lemma NewPgImp_null_intact_ring:
  assumes "NewPgImp s = Inr (None, pid, s')"
      and "pinned_walk (unat (clock_size (replacer s))) (heap (replacer s))
             (current (replacer s)) = Some (current (replacer s))"
  shows "s' = s\<lparr>next_page_id := next_page_id s + num_instances s\<rparr>"
proof -
  from NewPgImp_null_aux [of s] assms(1)
  have v: "Victim (replacer s) = Inr (None, replacer s')"
    and e: "s' = s\<lparr>next_page_id := next_page_id s + num_instances s, replacer := replacer s'\<rparr>"
    by simp_all
  from Victim_all_pinned [OF assms(2)] v have "replacer s' = replacer s" by simp
  with e show ?thesis by simp
qed


text \<open>
  Claim C3 (FetchPage of a resident page increments the frame's \<open>pin_count\<close>, pins the frame
  in the replacer and returns the frame the page table maps to). The hit path does not touch
  \<open>pin_count_\<close>: after \<open>NewPage; UnpinPage 0\<close> the count of frame 0 is 0, and it is still 0
  after \<open>FetchPage 0\<close> has returned frame 0 and pinned it in the replacer.
\<close>

theorem FetchPgImp_hit_keeps_pin_count:
  "case BufferPoolManagerInstance_init 1 1 0 empty_disk of
     Inl e \<Rightarrow> False
   | Inr s0 \<Rightarrow>
       (case run_bpm s0 [OpNewPage, OpUnpinPage 0 False] of
          Inl e \<Rightarrow> False
        | Inr (rs, s) \<Rightarrow>
            page_table s 0 = Some 0 \<and> pin_count (pages s ! 0) = 0
            \<and> (case FetchPgImp s 0 of
                 Inl e \<Rightarrow> False
               | Inr (r, s') \<Rightarrow>
                   r = Some 0 \<and> pin_count (pages s' ! 0) = 0
                   \<and> walk 1 (heap (replacer s')) (head (replacer s')) = [(0, True, True)]))"
  by code_simp

text \<open>
  Claim C4 (DeletePage: true for a page that is not resident, false for a resident pinned
  page, and for a resident unpinned page the removal and true). After \<open>NewPage\<close>, page 0 is
  resident with \<open>pin_count = 1\<close>; \<open>DeletePage 0\<close> returns true and leaves it resident, and
  \<open>DeletePage 1\<close>, of a page that is not resident, dereferences \<open>end()\<close>.
\<close>

theorem DeletePgImp_test_inverted:
  "case BufferPoolManagerInstance_init 1 1 0 empty_disk of
     Inl e \<Rightarrow> False
   | Inr s0 \<Rightarrow>
       (case run_bpm s0 [OpNewPage] of
          Inl e \<Rightarrow> False
        | Inr (rs, s) \<Rightarrow>
            page_table s 0 = Some 0 \<and> pin_count (pages s ! 0) = 1
            \<and> (case DeletePgImp s 0 of
                 Inl e \<Rightarrow> False
               | Inr (b, s') \<Rightarrow> b \<and> page_table s' 0 = Some 0 \<and> free_list s' = [])
            \<and> (case DeletePgImp s 1 of
                 Inl e \<Rightarrow> e = EndIteratorDeref
               | Inr (b, s') \<Rightarrow> False))"
  by code_simp

text \<open>
  Claim C6 (NewPage zeroes the frame's buffer rather than reading the disk, and sets
  \<open>page_id\<close>, \<open>pin_count = 1\<close>, \<open>is_dirty = false\<close>). \<open>NewPgImp\<close> calls \<open>ReadPage\<close> for the new
  id: on a disk full of \<open>0xAB\<close> the frame, zero before the call, holds \<open>0xAB\<close> after it.
\<close>

theorem NewPgImp_reads_disk:
  "case BufferPoolManagerInstance_init 1 1 0 ab_disk of
     Inl e \<Rightarrow> False
   | Inr s0 \<Rightarrow>
       (case NewPgImp s0 of
          Inl e \<Rightarrow> False
        | Inr (r, pid, s') \<Rightarrow>
            r = Some 0 \<and> pid = 0 \<and> data (pages s0 ! 0) 0 = 0 \<and> zero_page 0 = 0
            \<and> data (pages s' ! 0) 0 = 171
            \<and> page_id (pages s' ! 0) = 0 \<and> pin_count (pages s' ! 0) = 1
            \<and> \<not> is_dirty (pages s' ! 0))"
  by code_simp

text \<open>
  Claim C10 (when NewPage returns null for want of a frame, \<open>next_page_id\<close> has advanced by
  \<open>num_instances\<close> and page table, free list, frames and replacer are unchanged). In a pool
  of 5 frames, after five \<open>NewPage\<close>, \<open>UnpinPage\<close> of pages 2, 3, 4 and three more \<open>NewPage\<close>,
  every frame is pinned and the free list is empty. The next \<open>NewPage\<close> returns null and
  advances \<open>next_page_id\<close>, and the replacer's hand has moved from node 5 to node 7: the ring
  no longer has \<open>clock_size\<close> nodes, so the walk of \<open>Victim\<close> does not end where it began.
\<close>

theorem NewPgImp_null_moves_hand:
  "case BufferPoolManagerInstance_init 5 1 0 empty_disk of
     Inl e \<Rightarrow> False
   | Inr s0 \<Rightarrow>
       (case run_bpm s0
               [OpNewPage, OpNewPage, OpNewPage, OpNewPage, OpNewPage,
                OpUnpinPage 2 False, OpUnpinPage 3 False, OpUnpinPage 4 False,
                OpNewPage, OpNewPage, OpNewPage] of
          Inl e \<Rightarrow> False
        | Inr (rs, s) \<Rightarrow>
            (case NewPgImp s of
               Inl e \<Rightarrow> False
             | Inr (r, pid, s') \<Rightarrow>
                 r = None \<and> free_list s = []
                 \<and> next_page_id s' = next_page_id s + num_instances s
                 \<and> current (replacer s) = Some 5 \<and> current (replacer s') = Some 7))"
  by code_simp

text \<open>
  Claim C2 (UnpinPage of a resident page ORs the dirty bit with the argument, returns false
  at \<open>pin_count = 0\<close>, otherwise decrements \<open>pin_count\<close> by one, calls the replacer's
  \<open>Unpin\<close> only when the count reaches zero, and returns true). \<open>UnpinPgImp\<close> assigns
  \<open>is_dirty_\<close> before it tests \<open>pin_count_\<close>, so the flag is overwritten, also by a call
  that returns false.

  First run: after \<open>NewPage; UnpinPage 0 true\<close> page 0 is dirty with \<open>pin_count = 0\<close>;
  \<open>UnpinPage 0 false\<close> returns false and leaves it clean.

  Second run, pool of one frame: \<open>NewPage; FetchPage 0; UnpinPage 0 true; UnpinPage 0 false;
  NewPage\<close>. The last \<open>NewPage\<close> evicts page 0, finds it clean and writes nothing: the
  write-back of the dirtied page is lost.
\<close>

theorem UnpinPgImp_rejected_call_clears_dirty:
  "(case BufferPoolManagerInstance_init 1 1 0 empty_disk of
      Inl e \<Rightarrow> False
    | Inr s0 \<Rightarrow>
        (case run_bpm s0 [OpNewPage, OpUnpinPage 0 True] of
           Inl e \<Rightarrow> False
         | Inr (rs, s) \<Rightarrow>
             rs = [RNew (Some 0) 0, RBool True]
             \<and> page_table s 0 = Some 0 \<and> is_dirty (pages s ! 0)
             \<and> pin_count (pages s ! 0) = 0
             \<and> (case UnpinPgImp s 0 False of
                  Inl e \<Rightarrow> False
                | Inr (b, s') \<Rightarrow>
                    \<not> b \<and> \<not> is_dirty (pages s' ! 0) \<and> pin_count (pages s' ! 0) = 0)))
   \<and> (case BufferPoolManagerInstance_init 1 1 0 empty_disk of
      Inl e \<Rightarrow> False
    | Inr s0 \<Rightarrow>
        (case run_bpm s0
                [OpNewPage, OpFetchPage 0, OpUnpinPage 0 True, OpUnpinPage 0 False, OpNewPage] of
           Inl e \<Rightarrow> False
         | Inr (rs, s) \<Rightarrow>
             rs = [RNew (Some 0) 0, RFetch (Some 0), RBool True, RBool False, RNew (Some 0) 1]
             \<and> page_table s 0 = None \<and> page_table s 1 = Some 0
             \<and> writes (disk_manager s) = []))"
  by code_simp

text \<open>
  Claim C5 (FlushPage returns false for \<open>INVALID_PAGE_ID\<close> and for a page that is not
  resident; for a resident page it writes the frame to disk whatever the dirty flag, clears
  the flag and returns true), as stated, fails: the write is guarded by the dirty flag.
  After \<open>NewPage\<close>, page 0 is resident and clean, and \<open>FlushPage 0\<close> writes nothing.
\<close>

theorem FlushPgImp_skips_clean_page:
  "case BufferPoolManagerInstance_init 1 1 0 empty_disk of
     Inl e \<Rightarrow> False
   | Inr s0 \<Rightarrow>
       (case run_bpm s0 [OpNewPage] of
          Inl e \<Rightarrow> False
        | Inr (rs, s) \<Rightarrow>
            page_table s 0 = Some 0 \<and> \<not> is_dirty (pages s ! 0)
            \<and> (case FlushPgImp s 0 of
                 Inl e \<Rightarrow> False
               | Inr (b, s') \<Rightarrow> \<not> b \<and> writes (disk_manager s') = []))"
  by code_simp

text \<open>
  Claim C5, as amended. \<open>FlushPgImp\<close> returns false and changes nothing for
  \<open>INVALID_PAGE_ID\<close> and for a page that is not resident. For a resident page it returns;
  the frame is written to disk, under the page's id, exactly when its dirty flag was set;
  the flag is clear afterwards, and the frame's data, \<open>page_id\<close> and \<open>pin_count\<close>, the page
  table, the free list and the replacer are unchanged.
\<close>

theorem FlushPgImp_effect:
  "FlushPgImp s INVALID_PAGE_ID = Inr (False, s)
   \<and> (page_table s pid' = None \<longrightarrow> FlushPgImp s pid' = Inr (False, s))
   \<and> (pid \<noteq> INVALID_PAGE_ID \<and> page_table s pid = Some f \<and> frame_index s f = Some i \<longrightarrow>
        (\<exists>b s'. FlushPgImp s pid = Inr (b, s')
           \<and> \<not> is_dirty (pages s' ! i)
           \<and> disk_manager s' =
               (if is_dirty (pages s ! i)
                then WritePage (disk_manager s) pid (data (pages s ! i))
                else disk_manager s)
           \<and> data (pages s' ! i) = data (pages s ! i)
           \<and> page_id (pages s' ! i) = page_id (pages s ! i)
           \<and> pin_count (pages s' ! i) = pin_count (pages s ! i)
           \<and> page_table s' = page_table s \<and> free_list s' = free_list s
           \<and> replacer s' = replacer s))"
proof -
  have A: "FlushPgImp s INVALID_PAGE_ID = Inr (False, s)"
    by (simp add: FlushPgImp_def)
  have B: "FlushPgImp s pid' = Inr (False, s)" if "page_table s pid' = None"
    using that by (simp add: FlushPgImp_def)
  have C: "\<exists>b s'. FlushPgImp s pid = Inr (b, s')
           \<and> \<not> is_dirty (pages s' ! i)
           \<and> disk_manager s' =
               (if is_dirty (pages s ! i)
                then WritePage (disk_manager s) pid (data (pages s ! i))
                else disk_manager s)
           \<and> data (pages s' ! i) = data (pages s ! i)
           \<and> page_id (pages s' ! i) = page_id (pages s ! i)
           \<and> pin_count (pages s' ! i) = pin_count (pages s ! i)
           \<and> page_table s' = page_table s \<and> free_list s' = free_list s
           \<and> replacer s' = replacer s"
    if "pid \<noteq> INVALID_PAGE_ID" and "page_table s pid = Some f"
      and fi: "frame_index s f = Some i"
    using that frame_index_bound [OF fi] by (auto simp: FlushPgImp_def Let_def)
  from A B C show ?thesis by blast
qed

text \<open>
  Witness for C5: the pool of one frame after \<open>NewPage; UnpinPage 0 true\<close>, where page 0
  is resident and dirty and page 1 is not resident.
\<close>

theorem FlushPgImp_effect_witness:
  "\<exists>s0 rs s. BufferPoolManagerInstance_init 1 1 0 empty_disk = Inr s0
     \<and> run_bpm s0 [OpNewPage, OpUnpinPage 0 True] = Inr (rs, s)
     \<and> FlushPgImp s INVALID_PAGE_ID = Inr (False, s)
     \<and> page_table s 1 = None \<and> FlushPgImp s 1 = Inr (False, s)
     \<and> page_table s 0 = Some 0 \<and> frame_index s 0 = Some 0 \<and> is_dirty (pages s ! 0)
     \<and> (\<exists>b s'. FlushPgImp s 0 = Inr (b, s') \<and> \<not> is_dirty (pages s' ! 0)
           \<and> disk_manager s' = WritePage (disk_manager s) 0 (data (pages s ! 0)))"
proof -
  have "case BufferPoolManagerInstance_init 1 1 0 empty_disk of
          Inl e \<Rightarrow> False
        | Inr s0 \<Rightarrow>
            (case run_bpm s0 [OpNewPage, OpUnpinPage 0 True] of
               Inl e \<Rightarrow> False
             | Inr (rs, s) \<Rightarrow>
                 page_table s 1 = None \<and> page_table s 0 = Some 0
                 \<and> frame_index s 0 = Some 0 \<and> is_dirty (pages s ! 0))"
    by code_simp
  then obtain s0 where
    i: "BufferPoolManagerInstance_init 1 1 0 empty_disk = Inr s0"
    and h1: "case run_bpm s0 [OpNewPage, OpUnpinPage 0 True] of
               Inl e \<Rightarrow> False
             | Inr (rs, s) \<Rightarrow>
                 page_table s 1 = None \<and> page_table s 0 = Some 0
                 \<and> frame_index s 0 = Some 0 \<and> is_dirty (pages s ! 0)"
    by (rule sum_caseE)
  from h1 obtain rs s where
    run: "run_bpm s0 [OpNewPage, OpUnpinPage 0 True] = Inr (rs, s)"
    and h2: "page_table s 1 = None \<and> page_table s 0 = Some 0
             \<and> frame_index s 0 = Some 0 \<and> is_dirty (pages s ! 0)"
    by (rule sum_pair_caseE)
  from h2 have p1: "page_table s 1 = None"
    and pt: "page_table s 0 = Some 0" and fi: "frame_index s 0 = Some 0"
    and d: "is_dirty (pages s ! 0)"
    by blast+
  have ne: "(0 :: page_id_t) \<noteq> INVALID_PAGE_ID" by (simp add: INVALID_PAGE_ID_def)
  from FlushPgImp_effect [of s 1 0 0 0] p1 pt fi d ne
  have "FlushPgImp s INVALID_PAGE_ID = Inr (False, s) \<and> FlushPgImp s 1 = Inr (False, s)
        \<and> (\<exists>b s'. FlushPgImp s 0 = Inr (b, s') \<and> \<not> is_dirty (pages s' ! 0)
              \<and> disk_manager s' = WritePage (disk_manager s) 0 (data (pages s ! 0)))"
    by auto
  with i run p1 pt fi d show ?thesis by blast
qed

lemma sint_small:
  fixes w :: "32 word"
  assumes "unat w < 2 ^ 31"
  shows "sint w = int (unat w)"
proof -
  have "int (unat w) < int (2 ^ 31)"
    using assms by (simp only: of_nat_less_iff)
  then have "int (unat w) < 2 ^ 31" by simp
  moreover have u: "uint w = int (unat w)" by (rule uint_nat)
  ultimately have "uint w < 2 ^ 31" by presburger
  moreover have "- (2 ^ 31) \<le> uint w"
    by (rule order_trans [of _ 0]) simp_all
  ultimately have t: "signed_take_bit 31 (uint w) = uint w"
    by (intro signed_take_bit_int_eq_self)
  have "sint w = signed_take_bit (LENGTH(32) - Suc 0) (uint w)" by (rule sint_uint)
  also have "LENGTH(32) - Suc 0 = 31" by simp
  finally have "sint w = uint w" by (simp only: t)
  then show ?thesis by (simp only: u)
qed

lemma unat_progression:
  fixes i N :: "32 word"
  assumes "unat i + m * unat N < 2 ^ 32"
  shows "unat (i + word_of_nat m * N) = unat i + m * unat N"
proof -
  have "unat (i + word_of_nat m * N) = (unat i + m * unat N) mod 2 ^ 32"
    by (simp add: unat_word_ariths unat_of_nat mod_simps)
  with assms show ?thesis by simp
qed

lemma progression_mod:
  fixes i N :: "32 word"
  assumes "i < N" and "unat i + m * unat N < 2 ^ 32"
  shows "(i + word_of_nat m * N) mod N = i"
proof -
  have "unat ((i + word_of_nat m * N) mod N) = (unat i + m * unat N) mod unat N"
    by (simp add: unat_mod unat_progression [OF assms(2)])
  also have "\<dots> = unat i"
    using assms(1) by (simp add: word_less_nat_alt)
  finally show ?thesis by (simp add: word_unat_eq_iff)
qed

lemma sint_progression:
  fixes i N :: "32 word"
  assumes "unat i + m * unat N < 2 ^ 31"
  shows "sint (i + word_of_nat m * N) = int (unat i) + int m * int (unat N)"
proof -
  have "(2::nat) ^ 31 < 2 ^ 32" by simp
  with assms have b: "unat i + m * unat N < 2 ^ 32" by (rule less_trans)
  have "unat (i + word_of_nat m * N) < 2 ^ 31"
    using assms by (simp only: unat_progression [OF b])
  then have "sint (i + word_of_nat m * N) = int (unat (i + word_of_nat m * N))"
    by (rule sint_small)
  then show ?thesis by (simp add: unat_progression [OF b])
qed

lemma AllocatePage_step:
  assumes "instance_index s < num_instances s"
      and "next_page_id s = instance_index s + word_of_nat m * num_instances s"
      and "unat (instance_index s) + m * unat (num_instances s) < 2 ^ 32"
  shows "AllocatePage s =
           Inr (instance_index s + word_of_nat m * num_instances s,
                s\<lparr>next_page_id := instance_index s + word_of_nat (Suc m) * num_instances s\<rparr>)"
  using assms progression_mod [OF assms(1) assms(3)]
  by (simp add: AllocatePage_def ValidatePageId_def Let_def algebra_simps)

lemma allocate_pages_progression:
  assumes "instance_index s < num_instances s"
      and "next_page_id s = instance_index s + word_of_nat m * num_instances s"
      and "k = 0 \<or> unat (instance_index s) + (m + k - 1) * unat (num_instances s) < 2 ^ 32"
  shows "allocate_pages k s =
           Inr (map (\<lambda>j. instance_index s + word_of_nat j * num_instances s) [m..<m + k],
                s\<lparr>next_page_id := instance_index s + word_of_nat (m + k) * num_instances s\<rparr>)"
  using assms
proof (induction k arbitrary: s m)
  case 0
  then show ?case by simp
next
  case (Suc k)
  let ?i = "instance_index s" and ?N = "num_instances s"
  have b: "unat ?i + (m + k) * unat ?N < 2 ^ 32" using Suc.prems(3) by simp
  have "unat ?i + m * unat ?N \<le> unat ?i + (m + k) * unat ?N" by simp
  with b have b0: "unat ?i + m * unat ?N < 2 ^ 32" by linarith
  let ?s1 = "s\<lparr>next_page_id := ?i + word_of_nat (Suc m) * ?N\<rparr>"
  have step: "AllocatePage s = Inr (?i + word_of_nat m * ?N, ?s1)"
    by (rule AllocatePage_step [OF Suc.prems(1) Suc.prems(2) b0])
  have rest: "allocate_pages k ?s1 =
      Inr (map (\<lambda>j. instance_index ?s1 + word_of_nat j * num_instances ?s1) [Suc m..<Suc m + k],
           ?s1\<lparr>next_page_id := instance_index ?s1 + word_of_nat (Suc m + k) * num_instances ?s1\<rparr>)"
  proof (rule Suc.IH)
    show "instance_index ?s1 < num_instances ?s1" using Suc.prems(1) by simp
    show "next_page_id ?s1 = instance_index ?s1 + word_of_nat (Suc m) * num_instances ?s1" by simp
    show "k = 0 \<or> unat (instance_index ?s1) + (Suc m + k - 1) * unat (num_instances ?s1) < 2 ^ 32"
      using b by (cases k) simp_all
  qed
  have "[m..<m + Suc k] = m # [Suc m..<Suc m + k]" by (simp add: upt_rec)
  with step rest show ?case by simp
qed

text \<open>The other calls do not write \<open>next_page_id_\<close>.\<close>

lemma FetchPgImp_next_page_id_aux:
  "case FetchPgImp s pid of
     Inl e \<Rightarrow> True
   | Inr (r, s') \<Rightarrow> next_page_id s' = next_page_id s \<and> num_instances s' = num_instances s"
  by (auto simp: FetchPgImp_def Let_def
           split: sum.split option.split list.split prod.split)

lemma UnpinPgImp_next_page_id_aux:
  "case UnpinPgImp s pid d of
     Inl e \<Rightarrow> True
   | Inr (b, s') \<Rightarrow> next_page_id s' = next_page_id s \<and> num_instances s' = num_instances s"
  by (auto simp: UnpinPgImp_def Let_def split: sum.split option.split)

lemma FlushPgImp_next_page_id_aux:
  "case FlushPgImp s pid of
     Inl e \<Rightarrow> True
   | Inr (b, s') \<Rightarrow> next_page_id s' = next_page_id s \<and> num_instances s' = num_instances s"
  by (auto simp: FlushPgImp_def Let_def split: sum.split option.split)

lemma DeletePgImp_next_page_id_aux:
  "case DeletePgImp s pid of
     Inl e \<Rightarrow> True
   | Inr (b, s') \<Rightarrow> next_page_id s' = next_page_id s \<and> num_instances s' = num_instances s"
  by (auto simp: DeletePgImp_def split: option.split)

lemma bpm_step_next_page_id:
  assumes "bpm_step s c = Inr (r, s')"
  shows "num_instances s' = num_instances s
         \<and> new_ids [r] = (if c = OpNewPage then [next_page_id s] else [])
         \<and> next_page_id s' =
             (if c = OpNewPage then next_page_id s + num_instances s else next_page_id s)"
proof (cases c)
  case OpNewPage
  with assms NewPgImp_next_page_id_aux [of s] show ?thesis
    by (auto simp: bpm_step_def split: sum.splits)
next
  case (OpFetchPage pid)
  with assms FetchPgImp_next_page_id_aux [of s pid] show ?thesis
    by (auto simp: bpm_step_def split: sum.splits)
next
  case (OpUnpinPage pid d)
  with assms UnpinPgImp_next_page_id_aux [of s pid d] show ?thesis
    by (auto simp: bpm_step_def split: sum.splits)
next
  case (OpDeletePage pid)
  with assms DeletePgImp_next_page_id_aux [of s pid] show ?thesis
    by (auto simp: bpm_step_def split: sum.splits)
next
  case (OpFlushPage pid)
  with assms FlushPgImp_next_page_id_aux [of s pid] show ?thesis
    by (auto simp: bpm_step_def split: sum.splits)
qed

lemma run_bpm_new_ids:
  assumes "run_bpm s ops = Inr (rs, s')" and "j < length (new_ids rs)"
  shows "new_ids rs ! j = next_page_id s + word_of_nat j * num_instances s"
  using assms
proof (induction ops arbitrary: s rs j)
  case Nil
  then show ?case by simp
next
  case (Cons c cs)
  from Cons.prems(1) obtain r s1 rs1 where
    step: "bpm_step s c = Inr (r, s1)" and rest: "run_bpm s1 cs = Inr (rs1, s')"
    and rs: "rs = r # rs1"
    by (auto split: sum.splits prod.splits)
  note st = bpm_step_next_page_id [OF step]
  have ids: "new_ids rs = new_ids [r] @ new_ids rs1"
    unfolding rs by (cases r) simp_all
  show ?case
  proof (cases "c = OpNewPage")
    case True
    with st have h: "new_ids rs = next_page_id s # new_ids rs1"
      and n1: "next_page_id s1 = next_page_id s + num_instances s"
      and N1: "num_instances s1 = num_instances s"
      using ids by simp_all
    show ?thesis
    proof (cases j)
      case 0
      then show ?thesis using h by simp
    next
      case (Suc j')
      with Cons.prems(2) h have "j' < length (new_ids rs1)" by simp
      from Cons.IH [OF rest this] show ?thesis
        using h Suc n1 N1 by (simp add: algebra_simps)
    qed
  next
    case False
    with st have h: "new_ids rs = new_ids rs1"
      and n1: "next_page_id s1 = next_page_id s"
      and N1: "num_instances s1 = num_instances s"
      using ids by simp_all
    from Cons.prems(2) h have "j < length (new_ids rs1)" by simp
    from Cons.IH [OF rest this] show ?thesis using h n1 N1 by simp
  qed
qed

lemma init_fields:
  assumes "BufferPoolManagerInstance_init psize N i d = Inr s0"
  shows "i < N \<and> num_instances s0 = N \<and> instance_index s0 = i \<and> next_page_id s0 = i"
  using assms by (auto simp: BufferPoolManagerInstance_init_def split: if_splits)

text \<open>
  Claim C7 (the ids returned by successive \<open>AllocatePage\<close> calls are \<open>i, i + N, i + 2N, \<dots>\<close>,
  each with \<open>page_id mod N = i\<close>, strictly increasing and never returned twice), as stated,
  fails where the 32-bit counter wraps: with \<open>N = 2^31\<close> and \<open>i = 0\<close> the first three ids
  are \<open>0\<close>, \<open>-2^31\<close> and \<open>0\<close> again.
\<close>

theorem AllocatePage_counter_wraps:
  "case BufferPoolManagerInstance_init 1 2147483648 0 empty_disk of
     Inl e \<Rightarrow> False
   | Inr s0 \<Rightarrow>
       (case allocate_pages 3 s0 of
          Inl e \<Rightarrow> False
        | Inr (ids, s) \<Rightarrow> ids = [0, 2147483648, 0] \<and> map sint ids = [0, - 2147483648, 0])"
  by code_simp

text \<open>
  Claim C7, as amended: the claim holds while the progression stays below \<open>2^31\<close>. For an
  instance constructed with \<open>N\<close> and \<open>i\<close>: if \<open>i + k * N < 2^31\<close>, the first \<open>k + 1\<close> calls
  of \<open>AllocatePage\<close> return (the assertion holds) and return \<open>i, i + N, \<dots>, i + k * N\<close>; every
  id \<open>i + j * N\<close> below \<open>2^31\<close> reads as that integer, satisfies \<open>page_id mod N = i\<close>, and is
  greater than every earlier one. In every run of manager calls, \<open>DeletePgImp\<close> included,
  the \<open>n\<close>-th id handed out by \<open>NewPgImp\<close> is \<open>i + n * N\<close> in 32-bit arithmetic.
\<close>

theorem AllocatePage_progression:
  assumes "BufferPoolManagerInstance_init psize N i d = Inr s0"
  shows "(unat i + k * unat N < 2 ^ 31 \<longrightarrow>
            (\<exists>s'. allocate_pages (Suc k) s0 =
                    Inr (map (\<lambda>j. i + word_of_nat j * N) [0..<Suc k], s')))
       \<and> (unat i + j * unat N < 2 ^ 31 \<longrightarrow>
            sint (i + word_of_nat j * N) = int (unat i) + int j * int (unat N)
            \<and> (i + word_of_nat j * N) mod N = i)
       \<and> (j' < j \<and> unat i + j * unat N < 2 ^ 31 \<longrightarrow>
            i + word_of_nat j' * N <s i + word_of_nat j * N)
       \<and> (run_bpm s0 ops = Inr (rs, s') \<and> n < length (new_ids rs) \<longrightarrow>
            new_ids rs ! n = i + word_of_nat n * N)"
proof -
  note f = init_fields [OF assms]
  have p32: "(2::nat) ^ 31 < 2 ^ 32" by simp
  have A: "\<exists>s'. allocate_pages (Suc k) s0 =
                  Inr (map (\<lambda>j. i + word_of_nat j * N) [0..<Suc k], s')"
    if b: "unat i + k * unat N < 2 ^ 31"
  proof -
    from b p32 have "unat i + k * unat N < 2 ^ 32" by (rule less_trans)
    then have "Suc k = 0 \<or>
        unat (instance_index s0) + (0 + Suc k - 1) * unat (num_instances s0) < 2 ^ 32"
      using f by simp
    from allocate_pages_progression [of s0 0 "Suc k", OF _ _ this] f
    show ?thesis by simp
  qed
  have B: "sint (i + word_of_nat j * N) = int (unat i) + int j * int (unat N)
           \<and> (i + word_of_nat j * N) mod N = i"
    if b: "unat i + j * unat N < 2 ^ 31"
  proof -
    from b p32 have "unat i + j * unat N < 2 ^ 32" by (rule less_trans)
    with f progression_mod [of i N j] sint_progression [OF b] show ?thesis by simp
  qed
  have C: "i + word_of_nat j' * N <s i + word_of_nat j * N"
    if lt: "j' < j" and b: "unat i + j * unat N < 2 ^ 31"
  proof -
    from f have "0 < unat N" by (auto simp: word_less_nat_alt)
    with lt have m: "j' * unat N < j * unat N" by simp
    with b have b': "unat i + j' * unat N < 2 ^ 31" by linarith
    have "int (unat i) + int j' * int (unat N) < int (unat i) + int j * int (unat N)"
      using m by (metis add_less_cancel_left of_nat_less_iff of_nat_mult)
    then show ?thesis
      by (simp only: word_sless_alt sint_progression [OF b] sint_progression [OF b'])
  qed
  have D: "new_ids rs ! n = i + word_of_nat n * N"
    if "run_bpm s0 ops = Inr (rs, s')" and "n < length (new_ids rs)"
    using run_bpm_new_ids [OF that] f by simp
  from A B C D show ?thesis by blast
qed

text \<open>
  Witness for C7: \<open>num_instances = 4\<close>, \<open>instance_index = 2\<close>; the ids are 2, 6, 10, 14, and a
  \<open>DeletePage\<close> between two \<open>NewPage\<close> calls does not bring id 2 back.
\<close>

theorem AllocatePage_progression_witness:
  "\<exists>s0. BufferPoolManagerInstance_init 1 4 2 empty_disk = Inr s0
     \<and> (\<exists>s'. allocate_pages 4 s0 = Inr ([2, 6, 10, 14], s'))
     \<and> sint (14 :: 32 word) = 14 \<and> (14 :: 32 word) mod 4 = 2
     \<and> (6 :: 32 word) <s 14
     \<and> (\<exists>rs s'. run_bpm s0 [OpNewPage, OpDeletePage 2, OpNewPage] = Inr (rs, s')
           \<and> new_ids rs = [2, 6])"
proof -
  obtain s0 where i: "BufferPoolManagerInstance_init 1 4 2 empty_disk = Inr s0"
    by (simp add: BufferPoolManagerInstance_init_def)
  have "case BufferPoolManagerInstance_init 1 4 2 empty_disk of
          Inl e \<Rightarrow> False
        | Inr s \<Rightarrow>
            (case run_bpm s [OpNewPage, OpDeletePage 2, OpNewPage] of
               Inl e \<Rightarrow> False
             | Inr (rs, s') \<Rightarrow> new_ids rs = [2, 6])"
    by code_simp
  then have "case run_bpm s0 [OpNewPage, OpDeletePage 2, OpNewPage] of
               Inl e \<Rightarrow> False
             | Inr (rs, s') \<Rightarrow> new_ids rs = [2, 6]"
    by (simp only: i sum.case)
  then obtain rs s' where
    r': "run_bpm s0 [OpNewPage, OpDeletePage 2, OpNewPage] = Inr (rs, s')"
    and ids: "new_ids rs = [2, 6]"
    by (auto split: sum.splits)
  have up: "[0..<4] = [0, 1, 2, 3]" by (simp add: upt_rec)
  from AllocatePage_progression [OF i, of 3 3 1 "[OpNewPage, OpDeletePage 2, OpNewPage]" rs s' 1]
  show ?thesis using i r' ids by (simp add: up)
qed

end
